theory Spec2Isabelle
  imports Complex_Main
begin

section \<open>JavaScript values\<close>

text \<open>
  The values a document field can hold. Numbers that occur as document values are
  integers in this model, of a magnitude below \<open>10^21\<close>, so that their property-key form
  is their decimal notation; thresholds and percentages are rationals, see below. An object is the list of its own
  enumerable properties in creation order.
\<close>

datatype jsval =
    JUndefined
  | JNull
  | JBool bool
  | JNum int
  | JStr string
  | JArr "jsval list"
  | JObj "(string \<times> jsval) list"

text \<open>\<^verbatim>\<open>!value\<close> is true exactly for the falsy values.\<close>

fun truthy :: "jsval \<Rightarrow> bool" where
  "truthy JUndefined = False"
| "truthy JNull = False"
| "truthy (JBool b) = b"
| "truthy (JNum n) = (n \<noteq> 0)"
| "truthy (JStr s) = (s \<noteq> [])"
| "truthy (JArr vs) = True"
| "truthy (JObj ps) = True"

text \<open>\<^verbatim>\<open>Array.isArray(value)\<close>\<close>

fun isArray :: "jsval \<Rightarrow> bool" where
  "isArray (JArr vs) = True"
| "isArray v = False"

subsection \<open>Property keys\<close>

text \<open>
  \<^verbatim>\<open>root.values[value]\<close> converts \<^verbatim>\<open>value\<close> to a property key, that is to a
  string: the decimal notation of an integer, the elements of an array joined by commas
  (with \<^verbatim>\<open>null\<close> and \<^verbatim>\<open>undefined\<close> elements empty), \<^verbatim>\<open>[object Object]\<close> for
  a plain object.
\<close>

function show_nat :: "nat \<Rightarrow> string" where
  "show_nat n =
     (if n < 10 then [char_of (48 + n)]
      else show_nat (n div 10) @ [char_of (48 + n mod 10)])"
  by pat_completeness auto
termination
  by (relation "measure id") auto

declare show_nat.simps [simp del]

definition show_int :: "int \<Rightarrow> string" where
  "show_int i = (if i < 0 then CHR ''-'' # show_nat (nat (- i)) else show_nat (nat i))"

fun join_comma :: "string list \<Rightarrow> string" where
  "join_comma [] = []"
| "join_comma [s] = s"
| "join_comma (s # t # ss) = s @ '','' @ join_comma (t # ss)"

fun to_string :: "jsval \<Rightarrow> string" where
  "to_string JUndefined = ''undefined''"
| "to_string JNull = ''null''"
| "to_string (JBool b) = (if b then ''true'' else ''false'')"
| "to_string (JNum n) = show_int n"
| "to_string (JStr s) = s"
| "to_string (JArr vs) =
     join_comma (map (\<lambda>v. if v = JUndefined \<or> v = JNull then [] else to_string v) vs)"
| "to_string (JObj ps) = ''[object Object]''"

subsection \<open>Plain objects used as dictionaries\<close>

text \<open>
  A plain object \<^verbatim>\<open>{}\<close> is modelled by its own properties in creation order.
  Three facts of the language are part of the model, because the code relies on
  plain objects:
  \<^item> \<^verbatim>\<open>Object.entries\<close> lists the keys that are array indices (canonical decimal
    strings below \<open>2^32 - 1\<close>) first, in ascending numeric order, and then the other
    string keys in creation order;
  \<^item> reading a key that is not an own property falls through to
    \<^verbatim>\<open>Object.prototype\<close>, whose members are all truthy;
  \<^item> assigning to the key \<^verbatim>\<open>__proto__\<close> sets the prototype and creates no own
    property.
\<close>

type_synonym 'a jsobj = "(string \<times> 'a) list"

definition is_digit :: "char \<Rightarrow> bool" where
  "is_digit c = (c \<in> set ''0123456789'')"

definition digit_val :: "char \<Rightarrow> int" where
  "digit_val c = of_char c - 48"

definition int_of_digits :: "string \<Rightarrow> int" where
  "int_of_digits s = foldl (\<lambda>n c. 10 * n + digit_val c) 0 s"

definition is_array_index :: "string \<Rightarrow> bool" where
  "is_array_index s =
     (s \<noteq> [] \<and> list_all is_digit s \<and> (s = ''0'' \<or> hd s \<noteq> CHR ''0'')
      \<and> int_of_digits s < 4294967295)"

definition object_prototype_names :: "string list" where
  "object_prototype_names =
     [''constructor'', ''__defineGetter__'', ''__defineSetter__'', ''hasOwnProperty'',
      ''__lookupGetter__'', ''__lookupSetter__'', ''isPrototypeOf'',
      ''propertyIsEnumerable'', ''toString'', ''valueOf'', ''__proto__'',
      ''toLocaleString'']"

text \<open>Writing a key of an insertion-ordered container: an existing key keeps its place.\<close>

fun upsert :: "string \<Rightarrow> 'a \<Rightarrow> 'a jsobj \<Rightarrow> 'a jsobj" where
  "upsert k v [] = [(k, v)]"
| "upsert k v (p # ps) = (if fst p = k then (k, v) # ps else p # upsert k v ps)"

text \<open>\<^verbatim>\<open>obj[k] = v\<close> on a plain object.\<close>

definition obj_set :: "string \<Rightarrow> 'a \<Rightarrow> 'a jsobj \<Rightarrow> 'a jsobj" where
  "obj_set k v ob = (if k = ''__proto__'' then ob else upsert k v ob)"

text \<open>The own property \<^verbatim>\<open>obj[k]\<close>, if there is one.\<close>

definition obj_get :: "'a jsobj \<Rightarrow> string \<Rightarrow> 'a option" where
  "obj_get ob k = map_of ob k"

text \<open>\<^verbatim>\<open>Object.entries(obj)\<close>\<close>

definition obj_entries :: "'a jsobj \<Rightarrow> (string \<times> 'a) list" where
  "obj_entries ob =
     sort_key (\<lambda>p. int_of_digits (fst p)) (filter (\<lambda>p. is_array_index (fst p)) ob)
     @ filter (\<lambda>p. \<not> is_array_index (fst p)) ob"

text \<open>
  \<^verbatim>\<open>xs.slice(0, end)\<close>: an absent end is the length, a fractional end is truncated
  towards zero, a negative end counts from the end of the array.
\<close>

definition to_integer :: "rat \<Rightarrow> int" where
  "to_integer q = (if 0 \<le> q then \<lfloor>q\<rfloor> else \<lceil>q\<rceil>)"

definition slice0 :: "'a list \<Rightarrow> rat option \<Rightarrow> 'a list" where
  "slice0 xs e =
     (case e of
        None \<Rightarrow> xs
      | Some q \<Rightarrow>
          (if to_integer q < 0 then take (nat (int (length xs) + to_integer q)) xs
           else take (nat (to_integer q)) xs))"

text \<open>
  \<^verbatim>\<open>xs.sort(cmp)\<close>: the sort is stable, so for a comparator that is a total preorder
  its result is the one of insertion sort.
\<close>

fun insert_by :: "('a \<Rightarrow> 'a \<Rightarrow> int) \<Rightarrow> 'a \<Rightarrow> 'a list \<Rightarrow> 'a list" where
  "insert_by cmp x [] = [x]"
| "insert_by cmp x (y # ys) = (if cmp x y \<le> 0 then x # y # ys else y # insert_by cmp x ys)"

definition js_sort :: "('a \<Rightarrow> 'a \<Rightarrow> int) \<Rightarrow> 'a list \<Rightarrow> 'a list" where
  "js_sort cmp xs = foldr (insert_by cmp) xs []"

section \<open>Rules, errors and the instance\<close>

text \<open>
  A rule object. A property the caller left out reads as \<^verbatim>\<open>undefined\<close>, here
  \<open>None\<close>.
\<close>

record rule =
  key :: string
  mode :: "string option"
  threshold :: "rat option"
  operator :: "string option"
  cap :: "rat option"

datatype error =
    Error string
  | TypeError string
  | IOError
  | CodecError

type_synonym filter_hook = "string \<Rightarrow> jsval \<Rightarrow> jsval"
type_synonym key_hook = "string \<Rightarrow> string"
type_synonym value_hook = "string \<Rightarrow> jsval \<Rightarrow> jsval"

text \<open>A property of a model object.\<close>

datatype mval =
    MUndefined
  | MStr string
  | MNum rat
  | MBool bool
  | MRules "rule list"
  | MKeys "string list"
  | MFilter filter_hook
  | MKeyHook key_hook
  | MValueHook value_hook
  | MTime int

type_synonym model_obj = "mval jsobj"

text \<open>What \<^verbatim>\<open>this.model\<close> holds: nothing, the raw artifact, or a decoded model.\<close>

datatype model_ref = NoModel | RawArtifact | Decoded model_obj

record synth =
  name :: "string option"
  rules :: "rule list option"
  skipKeys :: "string list option"
  filterData :: "filter_hook option"
  translateKey :: "key_hook option"
  translateValue :: "value_hook option"
  defaultRuleMode :: "string option"
  defaultRuleValue :: "rat option"
  defaultRuleOperator :: "string option"
  keepAutogeneratedRules :: "bool option"
  model :: model_ref
  verbose :: bool

text \<open>
  The external collaborators: the path lookup \<^verbatim>\<open>lodash.get\<close>, the clock, the
  serializer with the compressor (\<^verbatim>\<open>gzipSync(Buffer.from(serialize(model)))\<close>), its
  inverse (\<^verbatim>\<open>eval\<close> of \<^verbatim>\<open>unzipSync(raw)\<close>, which may raise), and the file system.
  The hooks, the sink's \<^verbatim>\<open>write\<close>, a callable callback and event listeners are taken
  to return normally.
\<close>

record 'b world =
  get :: "jsval \<Rightarrow> string \<Rightarrow> jsval"
  now :: int
  encode :: "model_obj \<Rightarrow> 'b"
  decode :: "'b \<Rightarrow> error + model_obj"
  readFileSync :: "string \<Rightarrow> error + 'b"
  writeFileSync :: "string \<Rightarrow> error option"

record entry =
  count :: nat
  percentage :: rat

type_synonym selections = "string list jsobj"
type_synonym stats = "(string \<times> entry) list jsobj"

datatype docsrc = DocArray "jsval list" | DocStream "jsval list"

text \<open>What a call observably does besides returning, in order.\<close>

datatype 'b effect =
    Emit_model_update 'b model_obj
  | Emit_model_save 'b model_obj
  | Emit_model_loaded model_obj
  | Emit_model_set model_obj
  | Emit_transformed selections docsrc stats
  | Sink_write selections docsrc stats
  | Callback selections docsrc stats
  | File_written string
  | Console_log model_obj

section \<open>The model codec\<close>

definition str_val :: "string option \<Rightarrow> mval" where
  "str_val x = (case x of None \<Rightarrow> MUndefined | Some s \<Rightarrow> MStr s)"

definition num_val :: "rat option \<Rightarrow> mval" where
  "num_val x = (case x of None \<Rightarrow> MUndefined | Some q \<Rightarrow> MNum q)"

definition bool_val :: "bool option \<Rightarrow> mval" where
  "bool_val x = (case x of None \<Rightarrow> MUndefined | Some b \<Rightarrow> MBool b)"

definition rules_val :: "rule list option \<Rightarrow> mval" where
  "rules_val x = (case x of None \<Rightarrow> MUndefined | Some rs \<Rightarrow> MRules rs)"

definition keys_val :: "string list option \<Rightarrow> mval" where
  "keys_val x = (case x of None \<Rightarrow> MUndefined | Some ks \<Rightarrow> MKeys ks)"

definition filter_val :: "filter_hook option \<Rightarrow> mval" where
  "filter_val x = (case x of None \<Rightarrow> MUndefined | Some f \<Rightarrow> MFilter f)"

definition key_hook_val :: "key_hook option \<Rightarrow> mval" where
  "key_hook_val x = (case x of None \<Rightarrow> MUndefined | Some f \<Rightarrow> MKeyHook f)"

definition value_hook_val :: "value_hook option \<Rightarrow> mval" where
  "value_hook_val x = (case x of None \<Rightarrow> MUndefined | Some f \<Rightarrow> MValueHook f)"

text \<open>
  \<^verbatim>\<open>model.k\<close>: a property the object does not have reads as \<^verbatim>\<open>undefined\<close>. The
  instance's fields are typed here, so a property that holds a value of another shape
  reads as \<^verbatim>\<open>undefined\<close> too.
\<close>

definition read_prop :: "model_obj \<Rightarrow> string \<Rightarrow> mval" where
  "read_prop m k = (case obj_get m k of None \<Rightarrow> MUndefined | Some v \<Rightarrow> v)"

fun as_str :: "mval \<Rightarrow> string option" where
  "as_str (MStr s) = Some s"
| "as_str v = None"

fun as_num :: "mval \<Rightarrow> rat option" where
  "as_num (MNum q) = Some q"
| "as_num v = None"

fun as_bool :: "mval \<Rightarrow> bool option" where
  "as_bool (MBool b) = Some b"
| "as_bool v = None"

fun as_rules :: "mval \<Rightarrow> rule list option" where
  "as_rules (MRules rs) = Some rs"
| "as_rules v = None"

fun as_keys :: "mval \<Rightarrow> string list option" where
  "as_keys (MKeys ks) = Some ks"
| "as_keys v = None"

fun as_filter :: "mval \<Rightarrow> filter_hook option" where
  "as_filter (MFilter f) = Some f"
| "as_filter v = None"

fun as_key_hook :: "mval \<Rightarrow> key_hook option" where
  "as_key_hook (MKeyHook f) = Some f"
| "as_key_hook v = None"

fun as_value_hook :: "mval \<Rightarrow> value_hook option" where
  "as_value_hook (MValueHook f) = Some f"
| "as_value_hook v = None"

text \<open>\<^verbatim>\<open>getModel()\<close>: the model object, property by property, and its encoding.\<close>

definition model_of :: "'b world \<Rightarrow> synth \<Rightarrow> model_obj" where
  "model_of w this =
     [(''name'', str_val (name this)),
      (''rules'', rules_val (rules this)),
      (''skipKeys'', keys_val (skipKeys this)),
      (''filterData'', filter_val (filterData this)),
      (''translateKey'', key_hook_val (translateKey this)),
      (''translateValue'', value_hook_val (translateValue this)),
      (''defaultRuleMode'', str_val (defaultRuleMode this)),
      (''defaultRuleValue'', num_val (defaultRuleValue this)),
      (''defaultRuleOperator'', str_val (defaultRuleOperator this)),
      (''keepAutogeneratedRules'', bool_val (keepAutogeneratedRules this)),
      (''creationDate'', MTime (now w))]"

definition getModel :: "'b world \<Rightarrow> synth \<Rightarrow> 'b \<times> model_obj" where
  "getModel w this = (encode w (model_of w this), model_of w this)"

text \<open>
  \<^verbatim>\<open>extractDataFromModel(raw)\<close>: decoding may raise, before any field is assigned;
  then the fields are read off the decoded object, \<^verbatim>\<open>skipKeys\<close> from the property
  \<^verbatim>\<open>skipFields\<close>.
\<close>

definition extractDataFromModel :: "'b world \<Rightarrow> 'b \<Rightarrow> synth \<Rightarrow> (error + model_obj) \<times> synth" where
  "extractDataFromModel w raw this =
     (case decode w raw of
        Inl e \<Rightarrow> (Inl e, this)
      | Inr m \<Rightarrow>
          (Inr m,
           this\<lparr>name := as_str (read_prop m ''name''),
                rules := as_rules (read_prop m ''rules''),
                skipKeys := as_keys (read_prop m ''skipFields''),
                filterData := as_filter (read_prop m ''filterData''),
                translateKey := as_key_hook (read_prop m ''translateKey''),
                translateValue := as_value_hook (read_prop m ''translateValue''),
                defaultRuleMode := as_str (read_prop m ''defaultRuleMode''),
                defaultRuleValue := as_num (read_prop m ''defaultRuleValue''),
                defaultRuleOperator := as_str (read_prop m ''defaultRuleOperator''),
                keepAutogeneratedRules := as_bool (read_prop m ''keepAutogeneratedRules'')\<rparr>))"

section \<open>Configuration updates\<close>

record params =
  sp_rules :: "rule list option"
  sp_skipFields :: "string list option"
  sp_filterData :: "filter_hook option"
  sp_translateKey :: "key_hook option"
  sp_translateValue :: "value_hook option"

text \<open>
  \<^verbatim>\<open>setParams\<close>: arrays and functions are truthy, so a provided field is \<open>Some\<close>.
  The fifth statement, \<^verbatim>\<open>if (translateValue) this.translateValue;\<close>, reads the field
  and assigns nothing.
\<close>

definition setParams :: "'b world \<Rightarrow> params \<Rightarrow> synth \<Rightarrow> synth \<times> 'b effect list" where
  "setParams w p this =
     (let s1 = (case sp_rules p of None \<Rightarrow> this | Some r \<Rightarrow> this\<lparr>rules := Some r\<rparr>);
          s2 = (case sp_skipFields p of None \<Rightarrow> s1 | Some k \<Rightarrow> s1\<lparr>skipKeys := Some k\<rparr>);
          s3 = (case sp_filterData p of None \<Rightarrow> s2 | Some f \<Rightarrow> s2\<lparr>filterData := Some f\<rparr>);
          s4 = (case sp_translateKey p of None \<Rightarrow> s3 | Some f \<Rightarrow> s3\<lparr>translateKey := Some f\<rparr>);
          s5 = (case sp_translateValue p of None \<Rightarrow> s4 | Some f \<Rightarrow> s4)
      in (s5, [Emit_model_update (fst (getModel w s5)) (snd (getModel w s5))]))"

section \<open>Rule resolution\<close>

text \<open>\<^verbatim>\<open>checkStream(obj)\<close> for the document source: it has a \<^verbatim>\<open>pipe\<close> function.\<close>

fun checkStream :: "docsrc \<Rightarrow> bool" where
  "checkStream (DocStream ds) = True"
| "checkStream (DocArray ds) = False"

text \<open>The documents the source yields, in order.\<close>

fun documents :: "docsrc \<Rightarrow> jsval list" where
  "documents (DocStream ds) = ds"
| "documents (DocArray ds) = ds"

text \<open>A loop whose body may raise: the first error ends it.\<close>

fun for_each :: "('a \<Rightarrow> 's \<Rightarrow> error + 's) \<Rightarrow> 'a list \<Rightarrow> 's \<Rightarrow> error + 's" where
  "for_each body [] s = Inr s"
| "for_each body (x # xs) s =
     (case body x s of Inl e \<Rightarrow> Inl e | Inr s' \<Rightarrow> for_each body xs s')"

text \<open>\<^verbatim>\<open>if (dataPath) doc = get(doc, dataPath)\<close>: an empty path is falsy.\<close>

definition project :: "'b world \<Rightarrow> string option \<Rightarrow> jsval \<Rightarrow> jsval" where
  "project w dataPath doc =
     (case dataPath of
        None \<Rightarrow> doc
      | Some p \<Rightarrow> (if p = [] then doc else get w doc p))"

text \<open>\<^verbatim>\<open>Object.keys(doc)\<close>\<close>

fun object_keys :: "jsval \<Rightarrow> error + string list" where
  "object_keys JUndefined = Inl (TypeError ''Cannot convert undefined or null to object'')"
| "object_keys JNull = Inl (TypeError ''Cannot convert undefined or null to object'')"
| "object_keys (JBool b) = Inr []"
| "object_keys (JNum n) = Inr []"
| "object_keys (JStr s) = Inr (map show_nat [0..<length s])"
| "object_keys (JArr vs) = Inr (map show_nat [0..<length vs])"
| "object_keys (JObj ps) = Inr (map fst (obj_entries ps))"

text \<open>\<^verbatim>\<open>rulesSet.add(k)\<close>: a set in insertion order.\<close>

definition set_add :: "'a \<Rightarrow> 'a list \<Rightarrow> 'a list" where
  "set_add k ks = (if k \<in> set ks then ks else ks @ [k])"

definition collect_keys :: "'b world \<Rightarrow> string option \<Rightarrow> jsval \<Rightarrow> string list \<Rightarrow> error + string list" where
  "collect_keys w dataPath doc rulesSet =
     (case object_keys (project w dataPath doc) of
        Inl e \<Rightarrow> Inl e
      | Inr ks \<Rightarrow> Inr (foldl (\<lambda>acc k. set_add k acc) rulesSet ks))"

definition default_rule :: "synth \<Rightarrow> string \<Rightarrow> rule list \<Rightarrow> error + rule list" where
  "default_rule this k rs =
     (case skipKeys this of
        None \<Rightarrow> Inl (TypeError ''this.skipKeys is undefined'')
      | Some sk \<Rightarrow>
          (if k \<in> set sk then Inr rs
           else (case filterData this of
                   None \<Rightarrow> Inl (TypeError ''this.filterData is not a function'')
                 | Some f \<Rightarrow>
                     (if truthy (f k JUndefined) then Inr rs
                      else Inr (rs @ [\<lparr>key = k, mode = defaultRuleMode this,
                                        threshold = defaultRuleValue this,
                                        operator = None, cap = None\<rparr>])))))"

definition buildDefaultRules :: "'b world \<Rightarrow> synth \<Rightarrow> jsval list \<Rightarrow> string option \<Rightarrow> error + rule list" where
  "buildDefaultRules w this docs dataPath =
     (case for_each (collect_keys w dataPath) docs [] of
        Inl e \<Rightarrow> Inl e
      | Inr rulesSet \<Rightarrow> for_each (default_rule this) rulesSet [])"

datatype sink = Sink (has_pipe: bool) (has_write: bool)

datatype callback = Function | NotFunction

record targs =
  tr_docs :: docsrc
  tr_rules :: "rule list option"
  tr_dataPath :: "string option"
  tr_includeStats :: bool
  tr_outputStream :: "sink option"
  tr_cb :: "callback option"

text \<open>
  The rules of a call (\<^verbatim>\<open>regole\<close>): the call's, else the instance's, else derived
  from the documents' keys; derived rules are stored, and announced, when
  \<^verbatim>\<open>keepAutogeneratedRules\<close> is truthy.
\<close>

definition regole_of ::
  "'b world \<Rightarrow> targs \<Rightarrow> synth \<Rightarrow> error + (rule list \<times> synth \<times> 'b effect list)" where
  "regole_of w a this =
     (case tr_rules a of
        Some rs \<Rightarrow> Inr (rs, this, [])
      | None \<Rightarrow>
          (case rules this of
             Some rs \<Rightarrow> Inr (rs, this, [])
           | None \<Rightarrow>
               (case buildDefaultRules w this (documents (tr_docs a)) (tr_dataPath a) of
                  Inl e \<Rightarrow> Inl e
                | Inr autoRules \<Rightarrow>
                    (if keepAutogeneratedRules this = Some True
                     then Inr (autoRules, this\<lparr>rules := Some autoRules\<rparr>,
                               [Emit_model_update
                                  (fst (getModel w (this\<lparr>rules := Some autoRules\<rparr>)))
                                  (snd (getModel w (this\<lparr>rules := Some autoRules\<rparr>)))])
                     else Inr (autoRules, this, [])))))"

section \<open>Aggregation\<close>

record tally =
  total_n :: nat
  values_m :: "nat jsobj"

type_synonym results = "tally jsobj"

text \<open>
  \<^verbatim>\<open>root.values[value]\<close> is truthy when the key is an own property (its value is an
  object) or a member of \<^verbatim>\<open>Object.prototype\<close>. In the second case
  \<^verbatim>\<open>root.values[value].count += 1\<close> writes to the inherited member and the object gets
  no own property.
\<close>

definition bump :: "string \<Rightarrow> tally \<Rightarrow> tally" where
  "bump k rt =
     (case obj_get (values_m rt) k of
        Some c \<Rightarrow> rt\<lparr>values_m := obj_set k (c + 1) (values_m rt), total_n := total_n rt + 1\<rparr>
      | None \<Rightarrow>
          (if k \<in> set object_prototype_names then rt\<lparr>total_n := total_n rt + 1\<rparr>
           else rt\<lparr>values_m := obj_set k 1 (values_m rt), total_n := total_n rt + 1\<rparr>))"

text \<open>
  \<^verbatim>\<open>addValue(value, root)\<close>, with \<^verbatim>\<open>root = results.get(field)\<close>: the reference is
  the key of the map; a field the map does not have gives \<^verbatim>\<open>undefined\<close>, and
  \<^verbatim>\<open>root.values\<close> then raises.
\<close>

definition addValue :: "jsval \<Rightarrow> string \<Rightarrow> results \<Rightarrow> error + results" where
  "addValue v field res =
     (if truthy v
      then (case map_of res field of
              None \<Rightarrow> Inl (TypeError ''root is undefined'')
            | Some rt \<Rightarrow> Inr (upsert field (bump (to_string v) rt) res))
      else Inr res)"

definition observe :: "synth \<Rightarrow> string \<Rightarrow> jsval \<Rightarrow> results \<Rightarrow> error + results" where
  "observe this field v res =
     (case filterData this of
        None \<Rightarrow> Inl (TypeError ''this.filterData is not a function'')
      | Some f \<Rightarrow>
          (if truthy (f field v) then Inr res
           else (case translateValue this of
                   None \<Rightarrow> Inl (TypeError ''this.translateValue is not a function'')
                 | Some t \<Rightarrow> addValue (t field v) field res)))"

definition tally_key :: "'b world \<Rightarrow> synth \<Rightarrow> jsval \<Rightarrow> string \<Rightarrow> results \<Rightarrow> error + results" where
  "tally_key w this doc k res =
     (case skipKeys this of
        None \<Rightarrow> Inl (TypeError ''this.skipKeys is undefined'')
      | Some sk \<Rightarrow>
          (if k \<in> set sk then Inr res
           else (case translateKey this of
                   None \<Rightarrow> Inl (TypeError ''this.translateKey is not a function'')
                 | Some t \<Rightarrow>
                     (case get w doc (t k) of
                        JArr vs \<Rightarrow> for_each (observe this (t k)) vs res
                      | v \<Rightarrow> observe this (t k) v res))))"

definition tally_doc ::
  "'b world \<Rightarrow> synth \<Rightarrow> string option \<Rightarrow> string list \<Rightarrow> jsval \<Rightarrow> results \<Rightarrow> error + results" where
  "tally_doc w this dataPath fs doc res =
     for_each (tally_key w this (project w dataPath doc)) fs res"

text \<open>\<^verbatim>\<open>fields.forEach((f) => results.set(f, { total: 0, values: {} }))\<close>\<close>

definition init_results :: "string list \<Rightarrow> results" where
  "init_results fs = foldl (\<lambda>res f. upsert f \<lparr>total_n = 0, values_m = []\<rparr> res) [] fs"

definition aggregate ::
  "'b world \<Rightarrow> synth \<Rightarrow> string option \<Rightarrow> rule list \<Rightarrow> jsval list \<Rightarrow> error + results" where
  "aggregate w this dataPath regole docs =
     for_each (tally_doc w this dataPath (map key regole)) docs (init_results (map key regole))"

section \<open>Ranking\<close>

text \<open>
  \<^verbatim>\<open>Number(((value.count / total) * 100).toFixed(1))\<close>: the percentage with one
  decimal, here in exact arithmetic and rounding half up (a double that is a tie in
  exact arithmetic can round either way). An entry exists only after its tally was
  counted, so the total is positive where this is used.
\<close>

definition percentage_of :: "nat \<Rightarrow> nat \<Rightarrow> rat" where
  "percentage_of c t = of_int ((2000 * int c + int t) div (2 * int t)) / 10"

definition with_percentage :: "tally \<Rightarrow> entry jsobj" where
  "with_percentage rt =
     map (\<lambda>p. (fst p, \<lparr>count = snd p, percentage = percentage_of (snd p) (total_n rt)\<rparr>))
       (values_m rt)"

text \<open>\<^verbatim>\<open>Object.entries(v.values).sort((a, b) => b[1].count - a[1].count)\<close>\<close>

definition by_count :: "string \<times> entry \<Rightarrow> string \<times> entry \<Rightarrow> int" where
  "by_count a b = int (count (snd b)) - int (count (snd a))"

definition rank :: "tally \<Rightarrow> (string \<times> entry) list" where
  "rank rt = js_sort by_count (obj_entries (with_percentage rt))"

text \<open>\<^verbatim>\<open>results.forEach((v, k) => { sortedResults[k] = sorted })\<close>\<close>

definition sorted_results :: "results \<Rightarrow> stats" where
  "sorted_results res = foldl (\<lambda>ob p. obj_set (fst p) (rank (snd p)) ob) [] res"

section \<open>Rule application\<close>

text \<open>A comparison with an absent threshold (\<^verbatim>\<open>undefined\<close>) is false.\<close>

definition js_cmp :: "(rat \<Rightarrow> rat \<Rightarrow> bool) \<Rightarrow> rat option \<Rightarrow> rat \<Rightarrow> bool" where
  "js_cmp rel t p = (case t of None \<Rightarrow> False | Some q \<Rightarrow> rel p q)"

text \<open>One \<^verbatim>\<open>case\<close> block of the switch: it assigns the selection, and the statistics.\<close>

definition select_where ::
  "(rat \<Rightarrow> bool) \<Rightarrow> bool \<Rightarrow> string \<Rightarrow> (string \<times> entry) list \<Rightarrow> selections \<times> stats
     \<Rightarrow> selections \<times> stats" where
  "select_where P includeStats k v acc =
     (obj_set k (map fst (filter (\<lambda>j. P (percentage (snd j))) v)) (fst acc),
      if includeStats then obj_set k (filter (\<lambda>j. P (percentage (snd j))) v) (snd acc)
      else snd acc)"

text \<open>
  The \<^verbatim>\<open>switch (operator)\<close> has no \<^verbatim>\<open>break\<close>: control enters at the matching
  label and runs every block from there to the end of the switch.
\<close>

definition switch_blocks :: "string option \<Rightarrow> (rat \<Rightarrow> rat \<Rightarrow> bool) list" where
  "switch_blocks op =
     (if op = Some ''equal'' then [(=), (<), (\<le>), (>), (\<ge>)]
      else if op = Some ''lt'' then [(<), (\<le>), (>), (\<ge>)]
      else if op = Some ''lte'' then [(\<le>), (>), (\<ge>)]
      else if op = Some ''gt'' then [(>), (\<ge>)]
      else [(\<ge>)])"

definition run_switch ::
  "rule \<Rightarrow> bool \<Rightarrow> string \<Rightarrow> (string \<times> entry) list \<Rightarrow> selections \<times> stats \<Rightarrow> selections \<times> stats" where
  "run_switch r includeStats k v acc =
     foldl (\<lambda>a rel. select_where (js_cmp rel (threshold r)) includeStats k v a) acc
       (switch_blocks (operator r))"

text \<open>\<^verbatim>\<open>if (cap) { ... slice(0, cap) }\<close>: a cap of zero is falsy.\<close>

definition cap_to :: "rat \<Rightarrow> string \<Rightarrow> 'a list jsobj \<Rightarrow> 'a list jsobj" where
  "cap_to q k ob = (case obj_get ob k of None \<Rightarrow> ob | Some xs \<Rightarrow> obj_set k (slice0 xs (Some q)) ob)"

definition apply_cap :: "rat option \<Rightarrow> bool \<Rightarrow> string \<Rightarrow> selections \<times> stats \<Rightarrow> selections \<times> stats" where
  "apply_cap c includeStats k acc =
     (case c of
        None \<Rightarrow> acc
      | Some q \<Rightarrow>
          (if q = 0 then acc
           else (cap_to q k (fst acc), if includeStats then cap_to q k (snd acc) else snd acc)))"

definition apply_rule ::
  "rule \<Rightarrow> bool \<Rightarrow> string \<Rightarrow> (string \<times> entry) list \<Rightarrow> selections \<times> stats \<Rightarrow> selections \<times> stats" where
  "apply_rule r includeStats k v acc =
     (if mode r = Some ''top''
      then (obj_set k (map fst (slice0 v (threshold r))) (fst acc),
            if includeStats then obj_set k (slice0 v (threshold r)) (snd acc) else snd acc)
      else if mode r = Some ''percentage''
      then apply_cap (cap r) includeStats k (run_switch r includeStats k v acc)
      else acc)"

text \<open>
  \<^verbatim>\<open>const { threshold, mode, operator, cap } = regole.find((f) => f.key === k)\<close>:
  destructuring \<^verbatim>\<open>undefined\<close> raises.
\<close>

definition apply_entry ::
  "rule list \<Rightarrow> bool \<Rightarrow> string \<times> (string \<times> entry) list \<Rightarrow> selections \<times> stats
     \<Rightarrow> error + selections \<times> stats" where
  "apply_entry regole includeStats kv acc =
     (case find (\<lambda>f. key f = fst kv) regole of
        None \<Rightarrow> Inl (TypeError ''Cannot destructure undefined'')
      | Some r \<Rightarrow> Inr (apply_rule r includeStats (fst kv) (snd kv) acc))"

definition apply_rules :: "rule list \<Rightarrow> bool \<Rightarrow> stats \<Rightarrow> error + selections \<times> stats" where
  "apply_rules regole includeStats sortedResults =
     for_each (apply_entry regole includeStats) (obj_entries sortedResults) ([], [])"

section \<open>transform\<close>

datatype ret = Selections selections | WithStats selections stats

text \<open>
  After the selection: the \<^verbatim>\<open>transformed\<close> event, the sink's \<^verbatim>\<open>write\<close>, the
  callback. The test \<^verbatim>\<open>cb && !typeof cb === "function"\<close> is never true, so a callback
  that is no function is called, which raises.
\<close>

definition publish ::
  "targs \<Rightarrow> selections \<Rightarrow> stats \<Rightarrow> (error + ret) \<times> 'b effect list" where
  "publish a fin st =
     (case tr_outputStream a of
        Some (Sink p False) \<Rightarrow>
          (Inl (TypeError ''outputStream.write is not a function''),
           [Emit_transformed fin (tr_docs a) st])
      | sk \<Rightarrow>
          (case tr_cb a of
             Some NotFunction \<Rightarrow>
               (Inl (TypeError ''cb is not a function''),
                [Emit_transformed fin (tr_docs a) st]
                @ (if sk = None then [] else [Sink_write fin (tr_docs a) st]))
           | c \<Rightarrow>
               (Inr (if tr_includeStats a then WithStats fin st else Selections fin),
                [Emit_transformed fin (tr_docs a) st]
                @ (if sk = None then [] else [Sink_write fin (tr_docs a) st])
                @ (if c = None then [] else [Callback fin (tr_docs a) st]))))"

text \<open>\<^verbatim>\<open>outputStream && !checkStream(outputStream)\<close>\<close>

definition bad_sink :: "sink option \<Rightarrow> bool" where
  "bad_sink s = (case s of None \<Rightarrow> False | Some k \<Rightarrow> \<not> has_pipe k)"

text \<open>
  \<^verbatim>\<open>!regole?.length > 0\<close> parses as \<^verbatim>\<open>(!regole?.length) > 0\<close>, which is true exactly
  for an empty rule list.
\<close>

definition transform :: "'b world \<Rightarrow> targs \<Rightarrow> synth \<Rightarrow> (error + ret) \<times> synth \<times> 'b effect list" where
  "transform w a this =
     (if checkStream (tr_docs a) \<and> (tr_rules a = None \<or> rules this = None)
      then (Inl (Error ''You Must Specify Rules when using a Stream''), this, [])
      else
        (case regole_of w a this of
           Inl e \<Rightarrow> (Inl e, this, [])
         | Inr (regole, this1, eff1) \<Rightarrow>
             (if regole = []
              then (Inl (Error ''Not able to transform without rules''), this1, eff1)
              else if bad_sink (tr_outputStream a)
              then (Inl (Error ''outputStream must be a writable stream''), this1, eff1)
              else
                (case aggregate w this1 (tr_dataPath a) regole (documents (tr_docs a)) of
                   Inl e \<Rightarrow> (Inl e, this1, eff1)
                 | Inr res \<Rightarrow>
                     (case apply_rules regole (tr_includeStats a) (sorted_results res) of
                        Inl e \<Rightarrow> (Inl e, this1, eff1)
                      | Inr (fin, st) \<Rightarrow>
                          (case publish a fin st of (r, eff2) \<Rightarrow> (r, this1, eff1 @ eff2)))))))"

section \<open>Saving and loading\<close>





definition loadModel :: "'b world \<Rightarrow> string \<Rightarrow> synth \<Rightarrow> (error + unit) \<times> synth \<times> 'b effect list" where
  "loadModel w path this =
     (case readFileSync w path of
        Inl e \<Rightarrow> (Inl e, this, [])
      | Inr raw \<Rightarrow>
          (case fst (extractDataFromModel w raw this) of
             Inl e \<Rightarrow> (Inl e, this, [])
           | Inr m \<Rightarrow>
               (Inr (), (snd (extractDataFromModel w raw this))\<lparr>model := Decoded m\<rparr>,
                (if verbose this then [Console_log m] else []) @ [Emit_model_loaded m])))"


section \<open>Construction\<close>

record 'b config =
  c_model :: "'b option"
  c_path :: "string option"
  c_name :: "string option"
  c_rules :: "rule list option"
  c_skipKeys :: "string list option"
  c_defaultRuleMode :: "string option"
  c_defaultRuleValue :: "rat option"
  c_defaultRuleOperator :: "string option"
  c_keepAutogeneratedRules :: "bool option"
  c_verbose :: "bool option"
  c_filterData :: "filter_hook option"
  c_translateKey :: "key_hook option"
  c_translateValue :: "value_hook option"

text \<open>The instance before the constructor's body has assigned anything.\<close>

definition blank :: synth where
  "blank =
     \<lparr>name = None, rules = None, skipKeys = None, filterData = None, translateKey = None,
      translateValue = None, defaultRuleMode = None, defaultRuleValue = None,
      defaultRuleOperator = None, keepAutogeneratedRules = None, model = NoModel,
      verbose = False\<rparr>"

definition or_else :: "'a option \<Rightarrow> 'a \<Rightarrow> 'a" where
  "or_else x d = (case x of None \<Rightarrow> d | Some v \<Rightarrow> v)"

text \<open>The three sources of a configuration, in the constructor's order.\<close>

definition configure :: "'b world \<Rightarrow> 'b config \<Rightarrow> (error + unit) \<times> synth \<times> 'b effect list" where
  "configure w c =
     (case c_model c of
        Some raw \<Rightarrow>
          (case fst (extractDataFromModel w raw blank) of
             Inl e \<Rightarrow> (Inl e, blank, [])
           | Inr m \<Rightarrow> (Inr (), (snd (extractDataFromModel w raw blank))\<lparr>model := RawArtifact\<rparr>, []))
      | None \<Rightarrow>
          (if c_path c \<noteq> None \<and> c_path c \<noteq> Some []
           then loadModel w (or_else (c_path c) []) blank
           else (Inr (),
                 blank\<lparr>rules := c_rules c,
                       skipKeys := Some (or_else (c_skipKeys c) []),
                       defaultRuleMode := Some (or_else (c_defaultRuleMode c) ''top''),
                       defaultRuleValue := Some (or_else (c_defaultRuleValue c) 3),
                       defaultRuleOperator := Some (or_else (c_defaultRuleOperator c) ''gte''),
                       keepAutogeneratedRules := Some (or_else (c_keepAutogeneratedRules c) False)\<rparr>,
                 [])))"

text \<open>The fields the constructor fills in when they are still falsy.\<close>

definition fill_defaults :: "'b world \<Rightarrow> 'b config \<Rightarrow> synth \<Rightarrow> synth" where
  "fill_defaults w c this =
     this\<lparr>name :=
            (if name this = None \<or> name this = Some []
             then Some (or_else (c_name c) (''model_'' @ show_int (now w)))
             else name this),
          filterData :=
            (if filterData this = None
             then Some (or_else (c_filterData c) (\<lambda>k v. JBool False))
             else filterData this),
          translateKey :=
            (if translateKey this = None
             then Some (or_else (c_translateKey c) (\<lambda>k. k))
             else translateKey this),
          translateValue :=
            (if translateValue this = None
             then Some (or_else (c_translateValue c) (\<lambda>k v. v))
             else translateValue this),
          verbose := or_else (c_verbose c) False\<rparr>"

definition new_Synthesizer :: "'b world \<Rightarrow> 'b config \<Rightarrow> (error + synth) \<times> 'b effect list" where
  "new_Synthesizer w c =
     (case fst (configure w c) of
        Inl e \<Rightarrow> (Inl e, snd (snd (configure w c)))
      | Inr u \<Rightarrow> (Inr (fill_defaults w c (fst (snd (configure w c)))), snd (snd (configure w c))))"

section \<open>A concrete setting\<close>

text \<open>
  The lookup of a path that names an own top-level property, a world in which the codec
  is the identity and the disk accepts every write, and the instance that
  \<^verbatim>\<open>new Synthesizer({ name: "m" })\<close> builds.
\<close>

fun get_own :: "jsval \<Rightarrow> string \<Rightarrow> jsval" where
  "get_own (JObj ps) k = (case map_of ps k of None \<Rightarrow> JUndefined | Some v \<Rightarrow> v)"
| "get_own v k = JUndefined"

definition world0 :: "model_obj world" where
  "world0 =
     \<lparr>get = get_own, now = 0, encode = (\<lambda>m. m), decode = (\<lambda>b. Inr b),
      readFileSync = (\<lambda>p. Inl IOError), writeFileSync = (\<lambda>p. None)\<rparr>"

definition config0 :: "model_obj config" where
  "config0 =
     \<lparr>c_model = None, c_path = None, c_name = Some ''m'', c_rules = None, c_skipKeys = None,
      c_defaultRuleMode = None, c_defaultRuleValue = None, c_defaultRuleOperator = None,
      c_keepAutogeneratedRules = None, c_verbose = None, c_filterData = None,
      c_translateKey = None, c_translateValue = None\<rparr>"

definition synth0 :: synth where
  "synth0 =
     \<lparr>name = Some ''m'', rules = None, skipKeys = Some [],
      filterData = Some (\<lambda>k v. JBool False), translateKey = Some (\<lambda>k. k),
      translateValue = Some (\<lambda>k v. v), defaultRuleMode = Some ''top'',
      defaultRuleValue = Some 3, defaultRuleOperator = Some ''gte'',
      keepAutogeneratedRules = Some False, model = NoModel, verbose = False\<rparr>"

definition doc :: "string \<Rightarrow> string \<Rightarrow> jsval" where
  "doc k v = JObj [(k, JStr v)]"

definition call0 :: "jsval list \<Rightarrow> rule list \<Rightarrow> targs" where
  "call0 ds rs =
     \<lparr>tr_docs = DocArray ds, tr_rules = Some rs, tr_dataPath = None, tr_includeStats = False,
      tr_outputStream = None, tr_cb = None\<rparr>"

definition top_rule :: "string \<Rightarrow> rat \<Rightarrow> rule" where
  "top_rule k t = \<lparr>key = k, mode = Some ''top'', threshold = Some t, operator = None, cap = None\<rparr>"

definition percentage_rule :: "string \<Rightarrow> string \<Rightarrow> rat \<Rightarrow> rule" where
  "percentage_rule k op t =
     \<lparr>key = k, mode = Some ''percentage'', threshold = Some t, operator = Some op, cap = None\<rparr>"

definition configured :: synth where
  "configured = synth0\<lparr>rules := Some [top_rule ''a'' 1], skipKeys := Some [''b'']\<rparr>"

definition only_translateValue :: params where
  "only_translateValue =
     \<lparr>sp_rules = None, sp_skipFields = None, sp_filterData = None, sp_translateKey = None,
      sp_translateValue = Some (\<lambda>k v. JStr ''z'')\<rparr>"

definition stream_call :: targs where
  "stream_call =
     \<lparr>tr_docs = DocStream [doc ''a'' ''x''], tr_rules = Some [top_rule ''a'' 1],
      tr_dataPath = None, tr_includeStats = False, tr_outputStream = None, tr_cb = None\<rparr>"

text \<open>The selections a successful call returns.\<close>

fun selections_of :: "ret \<Rightarrow> selections" where
  "selections_of (Selections fin) = fin"
| "selections_of (WithStats fin st) = fin"



definition docs3 :: "jsval list" where
  "docs3 = [doc ''a'' ''x'', doc ''a'' ''x'', doc ''a'' ''y'']"

definition tally3 :: tally where
  "tally3 = \<lparr>total_n = 3, values_m = [(''x'', 2), (''y'', 1)]\<rparr>"











definition tally_xc :: tally where
  "tally_xc = \<lparr>total_n = 2, values_m = [(''x'', 1)]\<rparr>"

definition prefixing :: synth where
  "prefixing = synth0\<lparr>translateKey := Some (\<lambda>k. ''data.'' @ k)\<rparr>"


fun is_TypeError :: "error \<Rightarrow> bool" where
  "is_TypeError (TypeError m) = True"
| "is_TypeError e = False"

section \<open>Properties of plain objects, loops and slices\<close>

lemma upsert_upsert: "upsert k a (upsert k b ob) = upsert k a ob"
  by (induction ob) auto

lemma obj_set_obj_set: "obj_set k a (obj_set k b ob) = obj_set k a ob"
  by (simp add: obj_set_def upsert_upsert)

lemma map_of_upsert: "map_of (upsert k v ob) k' = (if k' = k then Some v else map_of ob k')"
  by (induction ob) auto

lemma keys_upsert:
  "map fst (upsert k v ob) = (if k \<in> fst ` set ob then map fst ob else map fst ob @ [k])"
  by (induction ob) auto

lemma distinct_upsert: "distinct (map fst ob) \<Longrightarrow> distinct (map fst (upsert k v ob))"
  by (simp add: keys_upsert)


lemma set_upsert: "set (upsert k v ob) \<subseteq> insert (k, v) (set ob)"
  by (induction ob) auto

lemma obj_get_obj_set:
  "obj_get (obj_set k v ob) k' = (if k' = k \<and> k \<noteq> ''__proto__'' then Some v else obj_get ob k')"
  by (simp add: obj_get_def obj_set_def map_of_upsert)

lemma obj_get_Nil: "obj_get [] k = None"
  by (simp add: obj_get_def)

lemma distinct_obj_set: "distinct (map fst ob) \<Longrightarrow> distinct (map fst (obj_set k v ob))"
  by (simp add: obj_set_def distinct_upsert)

lemma set_obj_entries: "set (obj_entries ob) = set ob"
  by (auto simp: obj_entries_def)

lemma distinct_obj_entries:
  assumes "distinct (map fst ob)"
  shows "distinct (map fst (obj_entries ob))"
proof -
  from assms have d: "distinct ob" and i: "inj_on fst (set ob)"
    by (simp_all add: distinct_map)
  have "distinct (obj_entries ob)"
    using d by (auto simp: obj_entries_def)
  with i show ?thesis
    by (simp add: distinct_map set_obj_entries)
qed

lemma map_of_obj_entries:
  assumes "distinct (map fst ob)"
  shows "map_of (obj_entries ob) = map_of ob"
  using assms distinct_obj_entries [OF assms] set_obj_entries [of ob]
  by (simp add: map_of_inject_set)

lemma length_obj_entries: "length (obj_entries ob) = length ob"
  by (simp add: obj_entries_def sum_length_filter_compl)





lemma map_of_Some_key: "map_of ob k = Some v \<Longrightarrow> k \<in> fst ` set ob"
  by (metis map_of_eq_None_iff option.distinct(1))


lemma for_each_invariant:
  assumes "for_each body xs s = Inr s'" and "P s"
    and "\<And>x t t'. x \<in> set xs \<Longrightarrow> P t \<Longrightarrow> body x t = Inr t' \<Longrightarrow> P t'"
  shows "P s'"
  using assms
proof (induction xs arbitrary: s)
  case Nil
  then show ?case by simp
next
  case (Cons x xs)
  from Cons.prems(1) obtain t where t: "body x s = Inr t" and r: "for_each body xs t = Inr s'"
    by (auto split: sum.splits)
  have "P t" using Cons.prems(2) t Cons.prems(3) [of x s t] by (meson list.set_intros(1))
  moreover have "\<And>y u u'. y \<in> set xs \<Longrightarrow> P u \<Longrightarrow> body y u = Inr u' \<Longrightarrow> P u'"
    using Cons.prems(3) by (meson list.set_intros(2))
  ultimately show ?case using Cons.IH [OF r] by blast
qed

lemma for_each_error:
  assumes "for_each body xs s = Inl e"
    and "\<And>x t. x \<in> set xs \<Longrightarrow> body x t = Inl e \<Longrightarrow> Q"
  shows Q
  using assms
proof (induction xs arbitrary: s)
  case Nil
  then show ?case by simp
next
  case (Cons x xs)
  show ?case
  proof (cases "body x s")
    case (Inl e')
    with Cons.prems(1) have "body x s = Inl e" by simp
    then show ?thesis using Cons.prems(2) [of x s] by (meson list.set_intros(1))
  next
    case (Inr t)
    with Cons.prems(1) have "for_each body xs t = Inl e" by simp
    then show ?thesis using Cons.IH [of t] Cons.prems(2) by (meson list.set_intros(2))
  qed
qed

lemma for_each_Cons_Inr:
  "for_each body (x # xs) s = Inr s' \<longleftrightarrow> (\<exists>t. body x s = Inr t \<and> for_each body xs t = Inr s')"
  by (auto split: sum.splits)

lemma for_each_TypeError:
  assumes "for_each body xs s = Inl e"
    and "\<And>x t. body x t = Inl e \<Longrightarrow> is_TypeError e"
  shows "is_TypeError e"
  by (rule for_each_error [OF assms(1)]) (rule assms(2))

lemma slice0_map: "slice0 (map f xs) e = map f (slice0 xs e)"
  by (simp add: slice0_def take_map split: option.splits)

lemma slice0_nonneg: "0 \<le> t \<Longrightarrow> slice0 xs (Some t) = take (nat \<lfloor>t\<rfloor>) xs"
  by (simp add: slice0_def to_integer_def)

lemma slice0_small: "- 1 < t \<Longrightarrow> t < 0 \<Longrightarrow> slice0 xs (Some t) = []"
proof -
  assume a: "- 1 < t" "t < 0"
  then have "\<lceil>t\<rceil> = 0" by (simp add: ceiling_eq_iff)
  with a show ?thesis by (simp add: slice0_def to_integer_def)
qed

lemma slice0_negative:
  assumes "t \<le> - 1"
  shows "slice0 xs (Some t) = take (length xs - nat \<lfloor>- t\<rfloor>) xs"
proof -
  from assms have c: "\<lceil>t\<rceil> \<le> - 1" by (simp add: ceiling_le_iff)
  have f: "\<lfloor>- t\<rfloor> = - \<lceil>t\<rceil>" by (simp add: ceiling_def)
  from c assms have "to_integer t = \<lceil>t\<rceil>" by (simp add: to_integer_def)
  moreover have "nat (int (length xs) + \<lceil>t\<rceil>) = length xs - nat (- \<lceil>t\<rceil>)"
    using c by linarith
  ultimately show ?thesis using c f assms by (simp add: slice0_def)
qed

lemma length_insert_by: "length (insert_by cmp x ys) = Suc (length ys)"
  by (induction ys) auto

lemma length_js_sort: "length (js_sort cmp xs) = length xs"
  by (induction xs) (auto simp: js_sort_def length_insert_by)






section \<open>Properties of the configuration operations\<close>

lemma new_Synthesizer_config0: "new_Synthesizer world0 config0 = (Inr synth0, [])"
  by (simp add: new_Synthesizer_def configure_def config0_def synth0_def fill_defaults_def
      blank_def or_else_def)

lemma setParams_merge:
  "rules (fst (setParams w p this)) = (case sp_rules p of None \<Rightarrow> rules this | Some r \<Rightarrow> Some r)
   \<and> skipKeys (fst (setParams w p this))
       = (case sp_skipFields p of None \<Rightarrow> skipKeys this | Some k \<Rightarrow> Some k)
   \<and> filterData (fst (setParams w p this))
       = (case sp_filterData p of None \<Rightarrow> filterData this | Some f \<Rightarrow> Some f)
   \<and> translateKey (fst (setParams w p this))
       = (case sp_translateKey p of None \<Rightarrow> translateKey this | Some f \<Rightarrow> Some f)
   \<and> translateValue (fst (setParams w p this)) = translateValue this"
  by (simp add: setParams_def Let_def split: option.splits)

text \<open>
  Claim C5. \<^verbatim>\<open>setParams\<close> merges the provided fields \<^verbatim>\<open>rules\<close>, \<^verbatim>\<open>skipFields\<close>,
  \<^verbatim>\<open>filterData\<close> and \<^verbatim>\<open>translateKey\<close> (lemma \<open>setParams_merge\<close>), but a provided
  \<^verbatim>\<open>translateValue\<close> does not become the instance's hook: after
  \<^verbatim>\<open>setParams({ translateValue: (k, v) => "z" })\<close> on a fresh instance the hook is still
  the identity, and maps \<^verbatim>\<open>"x"\<close> to \<^verbatim>\<open>"x"\<close> where the provided one gives \<^verbatim>\<open>"z"\<close>.
\<close>

theorem setParams_discards_translateValue:
  "translateValue (fst (setParams world0 only_translateValue synth0)) = Some (\<lambda>k v. v)
   \<and> sp_translateValue only_translateValue = Some (\<lambda>k v. JStr ''z'')
   \<and> (\<lambda>k v. v) ''a'' (JStr ''x'') \<noteq> (\<lambda>k v. JStr ''z'') ''a'' (JStr ''x'')"
  by (simp add: setParams_def Let_def only_translateValue_def synth0_def)

lemma roundtrip_fields:
  assumes "decode w (encode w (model_of w this)) = Inr (model_of w this)"
  shows "snd (extractDataFromModel w (fst (getModel w this)) that)
         = that\<lparr>name := name this, rules := rules this, skipKeys := None,
                filterData := filterData this, translateKey := translateKey this,
                translateValue := translateValue this,
                defaultRuleMode := defaultRuleMode this,
                defaultRuleValue := defaultRuleValue this,
                defaultRuleOperator := defaultRuleOperator this,
                keepAutogeneratedRules := keepAutogeneratedRules this\<rparr>"
  using assms
  by (simp add: extractDataFromModel_def getModel_def model_of_def read_prop_def obj_get_def
      str_val_def num_val_def bool_val_def rules_val_def keys_val_def filter_val_def
      key_hook_val_def value_hook_val_def split: option.splits)

text \<open>
  Claim C2. Decoding the artifact that \<^verbatim>\<open>getModel\<close> encodes reproduces the rules and
  the default fields, but not \<^verbatim>\<open>skipKeys\<close>: the encoder writes the property
  \<^verbatim>\<open>skipKeys\<close> and the decoder reads \<^verbatim>\<open>skipFields\<close>, so an instance configured with
  \<^verbatim>\<open>skipKeys = ["b"]\<close> comes back with \<^verbatim>\<open>skipKeys\<close> undefined.
\<close>

theorem roundtrip_loses_skipKeys:
  "skipKeys configured = Some [''b'']
   \<and> skipKeys (snd (extractDataFromModel world0 (fst (getModel world0 configured)) blank)) = None
   \<and> rules (snd (extractDataFromModel world0 (fst (getModel world0 configured)) blank))
       = rules configured
   \<and> defaultRuleMode (snd (extractDataFromModel world0 (fst (getModel world0 configured)) blank))
       = defaultRuleMode configured
   \<and> defaultRuleValue (snd (extractDataFromModel world0 (fst (getModel world0 configured)) blank))
       = defaultRuleValue configured
   \<and> defaultRuleOperator (snd (extractDataFromModel world0 (fst (getModel world0 configured)) blank))
       = defaultRuleOperator configured
   \<and> keepAutogeneratedRules (snd (extractDataFromModel world0 (fst (getModel world0 configured)) blank))
       = keepAutogeneratedRules configured"
proof -
  have "decode world0 (encode world0 (model_of world0 configured)) = Inr (model_of world0 configured)"
    by (simp add: world0_def)
  from roundtrip_fields [OF this, of blank] show ?thesis
    by (simp add: configured_def)
qed

section \<open>Properties of the aggregation\<close>

lemma addValue_keys: "addValue v f res = Inr res' \<Longrightarrow> map fst res' = map fst res"
  by (auto simp: addValue_def keys_upsert split: if_splits option.splits dest: map_of_Some_key)

lemma observe_keys: "observe this f v res = Inr res' \<Longrightarrow> map fst res' = map fst res"
  by (auto simp: observe_def split: if_splits option.splits dest: addValue_keys)

lemma tally_key_keys:
  assumes "tally_key w this d k res = Inr res'"
  shows "map fst res' = map fst res"
proof -
  have loop: "\<And>f vs r r'. for_each (observe this f) vs r = Inr r' \<Longrightarrow> map fst r' = map fst r"
  proof -
    fix f vs r r'
    assume a: "for_each (observe this f) vs r = Inr r'"
    show "map fst r' = map fst r"
      by (rule for_each_invariant [OF a, where P = "\<lambda>t. map fst t = map fst r"])
        (auto dest: observe_keys)
  qed
  from assms show ?thesis
    by (auto simp: tally_key_def split: option.splits if_splits jsval.splits
        dest: observe_keys loop)
qed

lemma tally_doc_keys:
  assumes "tally_doc w this dp fs d res = Inr res'"
  shows "map fst res' = map fst res"
  unfolding tally_doc_def
  by (rule for_each_invariant [OF assms [unfolded tally_doc_def], where P = "\<lambda>t. map fst t = map fst res"])
    (auto dest: tally_key_keys)

lemma init_results_acc:
  "map fst (foldl (\<lambda>res f. upsert f z res) acc fs) = foldl (\<lambda>ks f. set_add f ks) (map fst acc) fs"
  by (induction fs arbitrary: acc) (auto simp: keys_upsert set_add_def)

lemma set_add_fold: "set (foldl (\<lambda>ks f. set_add f ks) acc fs) = set acc \<union> set fs"
  by (induction fs arbitrary: acc) (auto simp: set_add_def)

lemma distinct_add_fold:
  "distinct acc \<Longrightarrow> distinct (foldl (\<lambda>ks f. set_add f ks) acc fs)"
  by (induction fs arbitrary: acc) (auto simp: set_add_def)

lemma init_results_keys:
  "set (map fst (init_results fs)) = set fs" "distinct (map fst (init_results fs))"
  by (simp_all add: init_results_def init_results_acc set_add_fold distinct_add_fold)

lemma aggregate_keys:
  assumes "aggregate w this dp regole docs = Inr res"
  shows "map fst res = map fst (init_results (map key regole))"
  by (rule for_each_invariant [OF assms [unfolded aggregate_def],
        where P = "\<lambda>t. map fst t = map fst (init_results (map key regole))"])
    (auto dest: tally_doc_keys)

lemma aggregate_distinct:
  assumes "aggregate w this dp regole docs = Inr res"
  shows "distinct (map fst res)" "fst ` set res = key ` set regole"
  using aggregate_keys [OF assms] init_results_keys [of "map key regole"]
  by (simp, metis list.set_map)

lemma observe_cases:
  assumes "observe this f v res = Inr res'"
  shows "res' = res \<or> (\<exists>tv. translateValue this = Some tv \<and> addValue (tv f v) f res = Inr res')"
  using assms by (auto simp: observe_def split: option.splits if_splits)

lemma aggregate_induct:
  assumes ag: "aggregate w this dp regole docs = Inr res"
    and init: "P (init_results (map key regole))"
    and step: "\<And>tv x f r r'. translateValue this = Some tv \<Longrightarrow> P r \<Longrightarrow>
                 addValue (tv f x) f r = Inr r' \<Longrightarrow> P r'"
  shows "P res"
proof -
  have ob: "\<And>f v r r'. P r \<Longrightarrow> observe this f v r = Inr r' \<Longrightarrow> P r'"
    using step observe_cases by blast
  have obs: "\<And>f vs r r'. P r \<Longrightarrow> for_each (observe this f) vs r = Inr r' \<Longrightarrow> P r'"
  proof -
    fix f vs r r'
    assume p: "P r" and a: "for_each (observe this f) vs r = Inr r'"
    show "P r'" by (rule for_each_invariant [where P = P, OF a p]) (rule ob)
  qed
  have tk: "\<And>d k r r'. P r \<Longrightarrow> tally_key w this d k r = Inr r' \<Longrightarrow> P r'"
    by (auto simp: tally_key_def split: option.splits if_splits jsval.splits dest: ob obs)
  have td: "\<And>d r r'. P r \<Longrightarrow> tally_doc w this dp (map key regole) d r = Inr r' \<Longrightarrow> P r'"
  proof -
    fix d r r'
    assume p: "P r" and a: "tally_doc w this dp (map key regole) d r = Inr r'"
    show "P r'" by (rule for_each_invariant [where P = P, OF a [unfolded tally_doc_def] p]) (rule tk)
  qed
  show ?thesis by (rule for_each_invariant [where P = P, OF ag [unfolded aggregate_def] init]) (rule td)
qed

lemma set_init_results: "set (init_results fs) \<subseteq> (\<lambda>f. (f, \<lparr>total_n = 0, values_m = []\<rparr>)) ` set fs"
proof -
  have "\<And>acc. set (foldl (\<lambda>res f. upsert f \<lparr>total_n = 0, values_m = []\<rparr> res) acc fs)
         \<subseteq> set acc \<union> (\<lambda>f. (f, \<lparr>total_n = 0, values_m = []\<rparr>)) ` set fs"
  proof (induction fs)
    case Nil
    then show ?case by simp
  next
    case (Cons f fs)
    from Cons [of "upsert f \<lparr>total_n = 0, values_m = []\<rparr> acc"]
      set_upsert [of f "\<lparr>total_n = 0, values_m = []\<rparr>" acc]
    show ?case by auto
  qed
  from this [of "[]"] show ?thesis by (simp add: init_results_def)
qed

lemma aggregate_tallies_hook:
  assumes ag: "aggregate w this dp regole docs = Inr res"
    and init: "Q \<lparr>total_n = 0, values_m = []\<rparr>"
    and step: "\<And>tv x g rt. translateValue this = Some tv \<Longrightarrow> Q rt \<Longrightarrow>
                 Q (bump (to_string (tv g x)) rt)"
    and m: "map_of res f = Some rt"
  shows "Q rt"
proof -
  have "list_all (\<lambda>p. Q (snd p)) res"
  proof (rule aggregate_induct [OF ag])
    show "list_all (\<lambda>p. Q (snd p)) (init_results (map key regole))"
      using set_init_results [of "map key regole"] init by (auto simp: list_all_iff)
  next
    fix tv x g r r'
    assume h: "translateValue this = Some tv"
      and p: "list_all (\<lambda>p. Q (snd p)) r" and a: "addValue (tv g x) g r = Inr r'"
    show "list_all (\<lambda>p. Q (snd p)) r'"
    proof (cases "truthy (tv g x)")
      case False
      with a p show ?thesis by (simp add: addValue_def)
    next
      case True
      with a obtain t where t: "map_of r g = Some t"
        and r': "r' = upsert g (bump (to_string (tv g x)) t) r"
        by (auto simp: addValue_def split: option.splits)
      from t have "(g, t) \<in> set r" by (rule map_of_SomeD)
      with p have "Q t" by (auto simp: list_all_iff)
      with h have "Q (bump (to_string (tv g x)) t)" by (rule step)
      with p r' set_upsert [of g "bump (to_string (tv g x)) t" r] show ?thesis
        by (auto simp: list_all_iff)
    qed
  qed
  with map_of_SomeD [OF m] show ?thesis by (auto simp: list_all_iff)
qed

lemma aggregate_tallies:
  assumes ag: "aggregate w this dp regole docs = Inr res"
    and init: "Q \<lparr>total_n = 0, values_m = []\<rparr>"
    and step: "\<And>k rt. Q rt \<Longrightarrow> Q (bump k rt)"
    and m: "map_of res f = Some rt"
  shows "Q rt"
  by (rule aggregate_tallies_hook [where Q = Q, OF ag init _ m]) (rule step)



text \<open>New keys are created at the end: the creation order is the order of first encounter.\<close>

lemma bump_keys:
  "map fst (values_m (bump k rt))
   = (if k \<in> fst ` set (values_m rt) \<or> k \<in> set object_prototype_names
      then map fst (values_m rt) else map fst (values_m rt) @ [k])"
proof (cases "obj_get (values_m rt) k")
  case None
  then have "k \<notin> fst ` set (values_m rt)" by (simp add: obj_get_def map_of_eq_None_iff)
  with None show ?thesis
    by (auto simp: bump_def obj_set_def keys_upsert object_prototype_names_def)
next
  case (Some c)
  then have "k \<in> fst ` set (values_m rt)" by (simp add: obj_get_def map_of_Some_key)
  with Some show ?thesis by (auto simp: bump_def obj_set_def keys_upsert)
qed

lemma observe_drops:
  assumes "filterData this = Some fd" and "translateValue this = Some tv"
    and "truthy (fd f v) \<or> \<not> truthy (tv f v)"
  shows "observe this f v res = Inr res"
  using assms by (auto simp: observe_def addValue_def)

lemma observe_tallies:
  assumes "filterData this = Some fd" and "\<not> truthy (fd f v)"
    and "translateValue this = Some tv" and "truthy (tv f v)"
    and "map_of res f = Some rt"
    and "to_string (tv f v) \<notin> set object_prototype_names"
  shows "observe this f v res = Inr (upsert f (bump (to_string (tv f v)) rt) res)
         \<and> total_n (bump (to_string (tv f v)) rt) = total_n rt + 1
         \<and> map_of (values_m (bump (to_string (tv f v)) rt)) (to_string (tv f v))
             = Some (case map_of (values_m rt) (to_string (tv f v)) of None \<Rightarrow> 1 | Some c \<Rightarrow> c + 1)"
proof -
  from assms(6) have "to_string (tv f v) \<noteq> ''__proto__''"
    by (auto simp: object_prototype_names_def)
  with assms show ?thesis
    by (auto simp: observe_def addValue_def bump_def obj_get_def obj_set_def map_of_upsert
        split: option.splits)
qed

text \<open>
  Claim C7. An observation that the filter rejects, or whose translated value is falsy,
  leaves the tallies as they are (lemma \<open>observe_drops\<close>). The other observations are
  not always tallied. The value \<^verbatim>\<open>"constructor"\<close> passes the filter and is truthy, but
  \<^verbatim>\<open>root.values["constructor"]\<close> is the inherited member of \<^verbatim>\<open>Object.prototype\<close>:
  the total is counted and the values map gets no entry. And with a
  \<^verbatim>\<open>translateKey\<close> that maps the rule key \<^verbatim>\<open>a\<close> to \<^verbatim>\<open>data.a\<close> the tally is looked up
  under the translated key, which the results map does not have, and the first truthy
  value raises.
\<close>

theorem truthy_value_not_tallied:
  "aggregate world0 synth0 None [top_rule ''a'' 1] [doc ''a'' ''constructor'']
     = Inr [(''a'', \<lparr>total_n = 1, values_m = []\<rparr>)]
   \<and> aggregate world0 prefixing None [top_rule ''a'' 1] [doc ''data.a'' ''x'']
     = Inl (TypeError ''root is undefined'')"
  by code_simp

lemma sum_upsert:
  "map_of ob k = Some c \<Longrightarrow> sum_list (map snd (upsert k v ob)) + c = sum_list (map snd ob) + (v :: nat)"
  by (induction ob) auto

lemma sum_upsert_new:
  "map_of ob k = None \<Longrightarrow> sum_list (map snd (upsert k v ob)) = sum_list (map snd ob) + (v :: nat)"
  by (induction ob) (auto split: if_splits)

lemma bump_counts_le:
  assumes "sum_list (map snd (values_m rt)) \<le> total_n rt"
  shows "sum_list (map snd (values_m (bump k rt))) \<le> total_n (bump k rt)"
proof (cases "obj_get (values_m rt) k")
  case None
  with assms sum_upsert_new [of "values_m rt" k 1] show ?thesis
    by (auto simp: bump_def obj_set_def obj_get_def)
next
  case (Some c)
  with assms sum_upsert [of "values_m rt" k c "c + 1"] show ?thesis
    by (auto simp: bump_def obj_set_def obj_get_def)
qed

lemma counts_le_total:
  assumes "aggregate w this dp regole docs = Inr res" and "map_of res f = Some rt"
  shows "sum_list (map snd (values_m rt)) \<le> total_n rt"
  by (rule aggregate_tallies [OF assms(1) _ _ assms(2)]) (simp_all add: bump_counts_le)

lemma bump_counts_eq:
  assumes "sum_list (map snd (values_m rt)) = total_n rt" and "k \<notin> set object_prototype_names"
  shows "sum_list (map snd (values_m (bump k rt))) = total_n (bump k rt)"
proof -
  from assms(2) have k: "k \<noteq> ''__proto__''" by (auto simp: object_prototype_names_def)
  show ?thesis
  proof (cases "obj_get (values_m rt) k")
    case None
    with assms k sum_upsert_new [of "values_m rt" k 1] show ?thesis
      by (auto simp: bump_def obj_set_def obj_get_def)
  next
    case (Some c)
    with assms k sum_upsert [of "values_m rt" k c "c + 1"] show ?thesis
      by (auto simp: bump_def obj_set_def obj_get_def)
  qed
qed

text \<open>The counts do add up when no translated value names a member of the prototype.\<close>

lemma counts_eq_total:
  assumes "aggregate w this dp regole docs = Inr res" and "map_of res f = Some rt"
    and "\<And>tv g x. translateValue this = Some tv \<Longrightarrow>
           to_string (tv g x) \<notin> set object_prototype_names"
  shows "sum_list (map snd (values_m rt)) = total_n rt"
  by (rule aggregate_tallies_hook [OF assms(1) _ _ assms(2)])
    (simp_all add: bump_counts_eq assms(3))

text \<open>
  Claim C8. The counts of a field's values do not always add up to its total: an
  observation whose key is a member of \<^verbatim>\<open>Object.prototype\<close> is counted in the total
  and in no entry. After \<^verbatim>\<open>x\<close> and \<^verbatim>\<open>constructor\<close> the total is 2 and the counts add
  up to 1. (The sum never exceeds the total, lemma \<open>counts_le_total\<close>.)
\<close>

theorem counts_fall_short_of_total:
  "aggregate world0 synth0 None [top_rule ''a'' 1] [doc ''a'' ''x'', doc ''a'' ''constructor'']
     = Inr [(''a'', tally_xc)]
   \<and> total_n tally_xc = 2
   \<and> sum_list (map snd (values_m tally_xc)) = 1"
  by code_simp

section \<open>Properties of the ranking\<close>




lemma length_rank: "length (rank rt) = length (values_m rt)"
  by (simp add: rank_def length_js_sort length_obj_entries with_percentage_def)








lemma sorted_results_acc:
  assumes "distinct (map fst res)"
  shows "obj_get (foldl (\<lambda>ob p. obj_set (fst p) (rank (snd p)) ob) acc res) k
         = (if k \<noteq> ''__proto__'' \<and> k \<in> fst ` set res
            then map_option rank (map_of res k) else obj_get acc k)"
  using assms
proof (induction res arbitrary: acc)
  case Nil
  then show ?case by simp
next
  case (Cons p res)
  then show ?case
    by (cases p) (auto simp: obj_get_obj_set image_iff)
qed

lemma obj_get_sorted_results:
  assumes "distinct (map fst res)"
  shows "obj_get (sorted_results res) k
         = (if k = ''__proto__'' then None else map_option rank (map_of res k))"
  using sorted_results_acc [OF assms, of "[]" k]
  by (auto simp: sorted_results_def obj_get_def map_of_eq_None_iff)

lemma distinct_sorted_results_acc:
  "distinct (map fst acc) \<Longrightarrow>
   distinct (map fst (foldl (\<lambda>ob p. obj_set (fst p) (rank (snd p)) ob) acc res))"
  by (induction res arbitrary: acc) (auto simp: distinct_obj_set)

lemma distinct_sorted_results: "distinct (map fst (sorted_results res))"
  by (simp add: sorted_results_def distinct_sorted_results_acc)



section \<open>Properties of the rule application\<close>

lemma select_where_twice:
  "select_where P i k v (select_where Q i k v acc) = select_where P i k v acc"
  by (simp add: select_where_def obj_set_obj_set)

lemma run_switch_gte:
  "run_switch r i k v acc = select_where (js_cmp (\<ge>) (threshold r)) i k v acc"
  by (simp add: run_switch_def switch_blocks_def select_where_twice)

lemma obj_get_cap_to:
  "obj_get (cap_to q k ob) k'
   = (if k' = k \<and> k \<noteq> ''__proto__'' then map_option (\<lambda>xs. slice0 xs (Some q)) (obj_get ob k)
      else obj_get ob k')"
  by (auto simp: cap_to_def obj_get_obj_set split: option.splits)

lemma apply_rule_other:
  assumes "k' \<noteq> k"
  shows "obj_get (fst (apply_rule r i k v acc)) k' = obj_get (fst acc) k'"
    and "obj_get (snd (apply_rule r i k v acc)) k' = obj_get (snd acc) k'"
  using assms
  by (auto simp: apply_rule_def apply_cap_def run_switch_gte select_where_def obj_get_obj_set
      obj_get_cap_to split: option.splits)

lemma apply_rule_fresh:
  shows "obj_get (fst acc) k = None \<Longrightarrow>
         obj_get (fst (apply_rule r i k v acc)) k = obj_get (fst (apply_rule r i k v ([], []))) k"
    and "obj_get (snd acc) k = None \<Longrightarrow>
         obj_get (snd (apply_rule r i k v acc)) k = obj_get (snd (apply_rule r i k v ([], []))) k"
  by (auto simp: apply_rule_def apply_cap_def run_switch_gte select_where_def obj_get_obj_set
      obj_get_cap_to obj_get_Nil split: option.splits)

lemma apply_entry_Inr:
  "apply_entry regole i e acc = Inr t \<longleftrightarrow>
   (\<exists>r. find (\<lambda>f. key f = fst e) regole = Some r \<and> t = apply_rule r i (fst e) (snd e) acc)"
  by (auto simp: apply_entry_def split: option.splits)

lemma apply_entries_other:
  assumes "for_each (apply_entry regole i) es acc = Inr acc'" and "k \<notin> fst ` set es"
  shows "obj_get (fst acc') k = obj_get (fst acc) k \<and> obj_get (snd acc') k = obj_get (snd acc) k"
  using assms
proof (induction es arbitrary: acc)
  case Nil
  then show ?case by simp
next
  case (Cons e es)
  from Cons.prems(1) obtain r where
    r: "find (\<lambda>f. key f = fst e) regole = Some r"
    and rest: "for_each (apply_entry regole i) es (apply_rule r i (fst e) (snd e) acc) = Inr acc'"
    unfolding for_each_Cons_Inr apply_entry_Inr by blast
  from Cons.prems(2) have ne: "k \<noteq> fst e" and notin: "k \<notin> fst ` set es" by auto
  from Cons.IH [OF rest notin] apply_rule_other [OF ne, of r i "snd e" acc]
  show ?case by simp
qed

lemma apply_entries_at:
  assumes "for_each (apply_entry regole i) es acc = Inr acc'"
    and "distinct (map fst es)" and "map_of es k = Some v"
    and "find (\<lambda>f. key f = k) regole = Some r"
    and "obj_get (fst acc) k = None" and "obj_get (snd acc) k = None"
  shows "obj_get (fst acc') k = obj_get (fst (apply_rule r i k v ([], []))) k
         \<and> obj_get (snd acc') k = obj_get (snd (apply_rule r i k v ([], []))) k"
  using assms
proof (induction es arbitrary: acc)
  case Nil
  then show ?case by simp
next
  case (Cons e es)
  from Cons.prems(1) obtain r' where
    r': "find (\<lambda>f. key f = fst e) regole = Some r'"
    and rest: "for_each (apply_entry regole i) es (apply_rule r' i (fst e) (snd e) acc) = Inr acc'"
    unfolding for_each_Cons_Inr apply_entry_Inr by blast
  show ?case
  proof (cases "fst e = k")
    case True
    with Cons.prems(3) have v: "snd e = v" by (cases e) simp
    from True r' Cons.prems(4) have rr: "r' = r" by simp
    from Cons.prems(2) True have "k \<notin> fst ` set es" by (cases e) auto
    from apply_entries_other [OF rest this] True v rr
      apply_rule_fresh(1) [OF Cons.prems(5), of r i v] apply_rule_fresh(2) [OF Cons.prems(6), of r i v]
    show ?thesis by simp
  next
    case False
    then have ne: "k \<noteq> fst e" by auto
    from False Cons.prems(3) have m: "map_of es k = Some v" by (cases e) (auto split: if_splits)
    from Cons.prems(2) have d: "distinct (map fst es)" by simp
    from apply_rule_other [OF ne, of r' i "snd e" acc] Cons.prems(5,6)
    have "obj_get (fst (apply_rule r' i (fst e) (snd e) acc)) k = None"
      and "obj_get (snd (apply_rule r' i (fst e) (snd e) acc)) k = None" by simp_all
    from Cons.IH [OF rest d m Cons.prems(4) this] show ?thesis .
  qed
qed





lemma apply_rules_at:
  assumes agg: "aggregate w this dp regole docs = Inr res"
    and ap: "apply_rules regole i (sorted_results res) = Inr (fin, st)"
    and f: "find (\<lambda>f. key f = k) regole = Some r"
    and k: "k \<noteq> ''__proto__''"
  shows "\<exists>rt. map_of res k = Some rt
           \<and> obj_get fin k = obj_get (fst (apply_rule r i k (rank rt) ([], []))) k
           \<and> obj_get st k = obj_get (snd (apply_rule r i k (rank rt) ([], []))) k"
proof -
  from f have "k \<in> key ` set regole"
    by (metis (mono_tags, lifting) find_Some_iff image_eqI nth_mem)
  with aggregate_distinct(2) [OF agg] have "k \<in> fst ` set res" by simp
  then obtain rt where rt: "map_of res k = Some rt"
    by (metis map_of_eq_None_iff not_Some_eq)
  from aggregate_distinct(1) [OF agg] have d: "distinct (map fst res)" .
  have "obj_get (sorted_results res) k = Some (rank rt)"
    using obj_get_sorted_results [OF d, of k] k rt by simp
  then have m: "map_of (obj_entries (sorted_results res)) k = Some (rank rt)"
    by (simp add: map_of_obj_entries distinct_sorted_results obj_get_def)
  from apply_entries_at [OF ap [unfolded apply_rules_def]
      distinct_obj_entries [OF distinct_sorted_results] m f]
  have "obj_get fin k = obj_get (fst (apply_rule r i k (rank rt) ([], []))) k
        \<and> obj_get st k = obj_get (snd (apply_rule r i k (rank rt) ([], []))) k"
    by (simp add: obj_get_def)
  with rt show ?thesis by blast
qed

lemma apply_rule_top:
  assumes "mode r = Some ''top''" and "k \<noteq> ''__proto__''"
  shows "obj_get (fst (apply_rule r i k v acc)) k = Some (map fst (slice0 v (threshold r)))"
  using assms by (simp add: apply_rule_def obj_get_obj_set)


section \<open>The selections of a call\<close>


lemma publish_Inr:
  "fst (publish a fin st) = Inr ret \<Longrightarrow>
   ret = (if tr_includeStats a then WithStats fin st else Selections fin)"
  by (auto simp: publish_def split: option.splits sink.splits bool.splits callback.splits)

lemma transform_Inr:
  fixes w :: "'b world"
  assumes "fst (transform w a this) = Inr ret"
  obtains regole this1 eff1 res fin st where
    "regole_of w a this = Inr (regole, this1, eff1)"
    "aggregate w this1 (tr_dataPath a) regole (documents (tr_docs a)) = Inr res"
    "apply_rules regole (tr_includeStats a) (sorted_results res) = Inr (fin, st)"
    "ret = (if tr_includeStats a then WithStats fin st else Selections fin)"
proof -
  from assms obtain regole this1 eff1 where
    r: "regole_of w a this = Inr (regole, this1, eff1)"
    by (auto simp: transform_def split: if_splits sum.splits prod.splits)
  with assms obtain res where
    g: "aggregate w this1 (tr_dataPath a) regole (documents (tr_docs a)) = Inr res"
    by (auto simp: transform_def split: if_splits sum.splits prod.splits)
  with assms r obtain fin st where
    p: "apply_rules regole (tr_includeStats a) (sorted_results res) = Inr (fin, st)"
    by (auto simp: transform_def split: if_splits sum.splits prod.splits)
  with assms r g have "fst (publish a fin st :: (error + ret) \<times> 'b effect list) = Inr ret"
    by (auto simp: transform_def case_prod_beta split: if_splits sum.splits)
  from publish_Inr [OF this] r g p that show thesis by blast
qed


text \<open>
  What a \<^verbatim>\<open>percentage\<close> rule selects, whatever its operator: the ranked values whose
  percentage is at least the threshold, cut to the cap if there is one.
\<close>

lemma percentage_selection:
  fixes w :: "'b world"
  assumes ok: "fst (transform w a this) = Inr ret"
    and rg: "regole_of w a this = Inr (regole, this1, eff1)"
    and ag: "aggregate w this1 (tr_dataPath a) regole (documents (tr_docs a)) = Inr res"
    and f: "find (\<lambda>f. key f = k) regole = Some r"
    and m: "mode r = Some ''percentage''"
    and k: "k \<noteq> ''__proto__''"
  shows "\<exists>rt. map_of res k = Some rt
           \<and> obj_get (selections_of ret) k
               = Some (slice0 (map fst (filter (\<lambda>j. js_cmp (\<ge>) (threshold r) (percentage (snd j)))
                                          (rank rt)))
                         (if cap r = Some 0 then None else cap r))"
proof -
  from transform_Inr [OF ok] rg ag obtain fin st where
    ap: "apply_rules regole (tr_includeStats a) (sorted_results res) = Inr (fin, st)"
    and ret: "ret = (if tr_includeStats a then WithStats fin st else Selections fin)"
    by (metis Pair_inject sum.inject(2))
  from ret have sel: "selections_of ret = fin" by simp
  from apply_rules_at [OF ag ap f k] obtain rt where
    rt: "map_of res k = Some rt"
    and g: "obj_get fin k = obj_get (fst (apply_rule r (tr_includeStats a) k (rank rt) ([], []))) k"
    by blast
  have "obj_get (fst (apply_rule r (tr_includeStats a) k (rank rt) ([], []))) k
        = Some (slice0 (map fst (filter (\<lambda>j. js_cmp (\<ge>) (threshold r) (percentage (snd j)))
                                   (rank rt)))
                  (if cap r = Some 0 then None else cap r))"
    using m k
    by (auto simp: apply_rule_def apply_cap_def run_switch_gte select_where_def obj_get_obj_set
        obj_get_cap_to slice0_def split: option.splits)
  with g rt sel show ?thesis by simp
qed

text \<open>
  Claim C1. With operator \<^verbatim>\<open>lt\<close> and threshold 50 on the tally
  \<open>x: 66.7, y: 33.3\<close> the selection is \<open>x\<close>, the value that is not below the
  threshold: every block of the switch after the matching label runs, and the last
  one, \<^verbatim>\<open>>=\<close>, decides, for every operator (lemmas \<open>run_switch_gte\<close> and
  \<open>percentage_selection\<close>).
\<close>

theorem percentage_lt_selects_gte:
  "fst (transform world0
          (call0 [doc ''a'' ''x'', doc ''a'' ''x'', doc ''a'' ''y'']
             [percentage_rule ''a'' ''lt'' 50]) synth0)
   = Inr (Selections [(''a'', [''x''])])"
  by code_simp

text \<open>
  A negative \<^verbatim>\<open>top\<close> threshold does not give an empty selection:
  \<^verbatim>\<open>v.slice(0, -1)\<close> is the ranked list without its last value. Three distinct values
  and threshold \<open>-1\<close> select two.
\<close>

theorem negative_top_threshold:
  "fst (transform world0
          (call0 [doc ''a'' ''x'', doc ''a'' ''z'', doc ''a'' ''y''] [top_rule ''a'' (- 1)]) synth0)
   = Inr (Selections [(''a'', [''x'', ''z''])])"
  by code_simp

text \<open>
  Claim C4, as the code has it. Let a call succeed with the rules \<open>regole\<close> and the
  tallies \<open>res\<close>, and let \<open>r\<close> be the rule found for the key \<open>k\<close> (not the reserved
  name \<^verbatim>\<open>__proto__\<close>), with mode \<^verbatim>\<open>top\<close> and threshold \<open>t\<close>. Then the field has a
  tally, and
  \<^item> for \<open>t \<ge> 0\<close> the selection is the first \<open>\<lfloor>t\<rfloor>\<close> ranked values, of length
    \<open>min \<lfloor>t\<rfloor> n\<close> for \<open>n\<close> distinct values (hence empty for \<open>t = 0\<close>);
  \<^item> for \<open>-1 < t < 0\<close> it is empty;
  \<^item> for \<open>t \<le> -1\<close> it is the ranked list without its last \<open>\<lfloor>-t\<rfloor>\<close> values.
\<close>

theorem top_selection:
  fixes w :: "'b world"
  assumes ok: "fst (transform w a this) = Inr ret"
    and rg: "regole_of w a this = Inr (regole, this1, eff1)"
    and ag: "aggregate w this1 (tr_dataPath a) regole (documents (tr_docs a)) = Inr res"
    and f: "find (\<lambda>f. key f = k) regole = Some r"
    and m: "mode r = Some ''top''" and t: "threshold r = Some t"
    and k: "k \<noteq> ''__proto__''"
  shows "\<exists>rt. map_of res k = Some rt
           \<and> (0 \<le> t \<longrightarrow>
                obj_get (selections_of ret) k = Some (take (nat \<lfloor>t\<rfloor>) (map fst (rank rt)))
                \<and> length (take (nat \<lfloor>t\<rfloor>) (map fst (rank rt)))
                    = min (nat \<lfloor>t\<rfloor>) (length (values_m rt)))
           \<and> (- 1 < t \<and> t < 0 \<longrightarrow> obj_get (selections_of ret) k = Some [])
           \<and> (t \<le> - 1 \<longrightarrow>
                obj_get (selections_of ret) k
                = Some (take (length (values_m rt) - nat \<lfloor>- t\<rfloor>) (map fst (rank rt))))"
proof -
  from transform_Inr [OF ok] rg ag obtain fin st where
    ap: "apply_rules regole (tr_includeStats a) (sorted_results res) = Inr (fin, st)"
    and ret: "ret = (if tr_includeStats a then WithStats fin st else Selections fin)"
    by (metis Pair_inject sum.inject(2))
  from ret have sel: "selections_of ret = fin" by simp
  from apply_rules_at [OF ag ap f k] obtain rt where
    rt: "map_of res k = Some rt"
    and g: "obj_get fin k = obj_get (fst (apply_rule r (tr_includeStats a) k (rank rt) ([], []))) k"
    by blast
  from g apply_rule_top [OF m k] t
  have s: "obj_get (selections_of ret) k = Some (map fst (slice0 (rank rt) (Some t)))"
    by (simp add: sel)
  have "0 \<le> t \<longrightarrow>
          obj_get (selections_of ret) k = Some (take (nat \<lfloor>t\<rfloor>) (map fst (rank rt)))
          \<and> length (take (nat \<lfloor>t\<rfloor>) (map fst (rank rt)))
              = min (nat \<lfloor>t\<rfloor>) (length (values_m rt))"
    using s by (simp add: slice0_nonneg take_map length_rank min.commute)
  moreover have "- 1 < t \<and> t < 0 \<longrightarrow> obj_get (selections_of ret) k = Some []"
    using s by (simp add: slice0_small)
  moreover have "t \<le> - 1 \<longrightarrow>
          obj_get (selections_of ret) k
          = Some (take (length (values_m rt) - nat \<lfloor>- t\<rfloor>) (map fst (rank rt)))"
    using s by (simp add: slice0_negative take_map length_rank)
  ultimately show ?thesis using rt by blast
qed

theorem top_selection_witness:
  "fst (transform world0 (call0 docs3 [top_rule ''a'' 1]) synth0)
     = Inr (Selections [(''a'', [''x''])])
   \<and> regole_of world0 (call0 docs3 [top_rule ''a'' 1]) synth0 = Inr ([top_rule ''a'' 1], synth0, [])
   \<and> aggregate world0 synth0 None [top_rule ''a'' 1] docs3 = Inr [(''a'', tally3)]
   \<and> find (\<lambda>f. key f = ''a'') [top_rule ''a'' 1] = Some (top_rule ''a'' 1)
   \<and> obj_get [(''a'', [''x''])] ''a'' = Some (take (nat \<lfloor>1 :: rat\<rfloor>) (map fst (rank tally3)))
   \<and> length (take (nat \<lfloor>1 :: rat\<rfloor>) (map fst (rank tally3)))
       = min (nat \<lfloor>1 :: rat\<rfloor>) (length (values_m tally3))"
proof -
  let ?a = "call0 docs3 [top_rule ''a'' 1]"
  have h1: "fst (transform world0 ?a synth0) = Inr (Selections [(''a'', [''x''])])"
    by code_simp
  have h2: "regole_of world0 ?a synth0 = Inr ([top_rule ''a'' 1], synth0, [])"
    by (simp add: regole_of_def call0_def)
  have h3: "aggregate world0 synth0 (tr_dataPath ?a) [top_rule ''a'' 1] (documents (tr_docs ?a))
            = Inr [(''a'', tally3)]"
    by code_simp
  have h4: "find (\<lambda>f. key f = ''a'') [top_rule ''a'' 1] = Some (top_rule ''a'' 1)"
    by (simp add: top_rule_def)
  have h5: "mode (top_rule ''a'' 1) = Some ''top''" by (simp add: top_rule_def)
  have h6: "threshold (top_rule ''a'' 1) = Some 1" by (simp add: top_rule_def)
  have h7: "''a'' \<noteq> ''__proto__''" by simp
  from top_selection [OF h1 h2 h3 h4 h5 h6 h7]
  have "obj_get [(''a'', [''x''])] ''a'' = Some (take (nat \<lfloor>1 :: rat\<rfloor>) (map fst (rank tally3)))
        \<and> length (take (nat \<lfloor>1 :: rat\<rfloor>) (map fst (rank tally3)))
            = min (nat \<lfloor>1 :: rat\<rfloor>) (length (values_m tally3))"
    by simp
  with h1 h2 h3 h4 show ?thesis by (simp add: call0_def)
qed



section \<open>The errors of a call\<close>

lemma stream_without_both_rule_sets:
  assumes "checkStream (tr_docs a)" and "tr_rules a = None \<or> rules this = None"
  shows "transform w a this
         = (Inl (Error ''You Must Specify Rules when using a Stream''), this, [])"
  using assms by (simp add: transform_def)

lemma observe_TypeError: "observe this f v res = Inl e \<Longrightarrow> is_TypeError e"
  by (auto simp: observe_def addValue_def split: option.splits if_splits)

lemma tally_key_TypeError:
  assumes "tally_key w this d k res = Inl e"
  shows "is_TypeError e"
  using assms
  by (auto simp: tally_key_def split: option.splits if_splits jsval.splits
      dest: observe_TypeError for_each_TypeError [OF _ observe_TypeError])

lemma aggregate_TypeError:
  assumes "aggregate w this dp regole docs = Inl e"
  shows "is_TypeError e"
proof (rule for_each_TypeError [OF assms [unfolded aggregate_def]])
  fix d t
  assume "tally_doc w this dp (map key regole) d t = Inl e"
  then show "is_TypeError e"
    unfolding tally_doc_def by (rule for_each_TypeError) (rule tally_key_TypeError)
qed

lemma buildDefaultRules_TypeError:
  assumes "buildDefaultRules w this docs dp = Inl e"
  shows "is_TypeError e"
proof (cases "for_each (collect_keys w dp) docs []")
  case (Inl e')
  with assms have a: "for_each (collect_keys w dp) docs [] = Inl e"
    by (simp add: buildDefaultRules_def)
  show ?thesis
  proof (rule for_each_TypeError [OF a])
    fix d t
    assume "collect_keys w dp d t = Inl e"
    then show "is_TypeError e"
      by (cases "project w dp d") (auto simp: collect_keys_def split: sum.splits)
  qed
next
  case (Inr ks)
  with assms have a: "for_each (default_rule this) ks [] = Inl e"
    by (simp add: buildDefaultRules_def)
  show ?thesis
  proof (rule for_each_TypeError [OF a])
    fix k t
    assume "default_rule this k t = Inl e"
    then show "is_TypeError e"
      by (auto simp: default_rule_def split: option.splits if_splits)
  qed
qed

lemma regole_of_TypeError: "regole_of w a this = Inl e \<Longrightarrow> is_TypeError e"
  by (auto simp: regole_of_def split: option.splits sum.splits if_splits
      dest: buildDefaultRules_TypeError)

lemma apply_rules_TypeError:
  assumes "apply_rules regole i sr = Inl e"
  shows "is_TypeError e"
proof (rule for_each_TypeError [OF assms [unfolded apply_rules_def]])
  fix x t
  assume "apply_entry regole i x t = Inl e"
  then show "is_TypeError e" by (auto simp: apply_entry_def split: option.splits)
qed

lemma publish_TypeError:
  fixes eff :: "'b effect list"
  shows "publish a fin st = (Inl e, eff) \<Longrightarrow> is_TypeError e"
  by (auto simp: publish_def split: option.splits sink.splits bool.splits callback.splits)

text \<open>The guard's error is raised exactly when the source is a stream and one of the
  two rule sets is missing.\<close>

lemma stream_error_iff:
  fixes w :: "'b world"
  shows "fst (transform w a this) = Inl (Error ''You Must Specify Rules when using a Stream'')
         \<longleftrightarrow> checkStream (tr_docs a) \<and> (tr_rules a = None \<or> rules this = None)"
proof (cases "checkStream (tr_docs a) \<and> (tr_rules a = None \<or> rules this = None)")
  case True
  then show ?thesis by (simp add: transform_def)
next
  case False
  have "fst (transform w a this) \<noteq> Inl (Error ''You Must Specify Rules when using a Stream'')"
  proof
    assume h: "fst (transform w a this) = Inl (Error ''You Must Specify Rules when using a Stream'')"
    from h False have "is_TypeError (Error ''You Must Specify Rules when using a Stream'')"
      by (auto simp: transform_def split: if_splits sum.splits prod.splits
          dest: regole_of_TypeError aggregate_TypeError apply_rules_TypeError publish_TypeError)
    then show False by simp
  qed
  with False show ?thesis by simp
qed

text \<open>
  Claim C3. A stream source with call-level rules does raise the error when the
  instance has no rules of its own: the guard tests
  \<^verbatim>\<open>!rules || !this.rules\<close>, so it passes only when both rule sets exist (lemma
  \<open>stream_error_iff\<close>). Here the call supplies a rule for \<^verbatim>\<open>a\<close> and the fresh
  instance has none.
\<close>

theorem stream_with_call_rules_fails:
  "tr_rules stream_call = Some [top_rule ''a'' 1]
   \<and> transform world0 stream_call synth0
       = (Inl (Error ''You Must Specify Rules when using a Stream''), synth0, [])"
  by (simp add: transform_def stream_call_def synth0_def)







end
